theory Spec2Isabelle
  imports Main "HOL-Library.Word"
begin

section \<open>The Heltec V3 LoRaWAN sketch (TTN.ino)\<close>

text \<open>
  The sketch is an Arduino program: \<^verbatim>\<open>setup()\<close> runs once, then \<^verbatim>\<open>loop()\<close> is
  called again and again. Everything it does is a call into a library (Serial, GPIO,
  SPI, RadioLib), so the model records each such call, in program order, as an
  \<open>event\<close>, and takes what the calls return from an environment. The result codes
  are C \<^verbatim>\<open>int\<close>s that the sketch only compares and prints, so they are \<open>int\<close>
  here. The constructors of the global objects \<^verbatim>\<open>radio\<close> and \<^verbatim>\<open>node\<close> (lines 44 and
  48) run before \<^verbatim>\<open>setup()\<close> and are not recorded.
\<close>

subsection \<open>Calls made by the sketch\<close>

datatype pin_mode = INPUT | OUTPUT

datatype pin_level = LOW | HIGH

datatype event =
    Serial_begin nat
  | Delay nat
  | Serial_print string
  | Serial_println string
  | Serial_println_int int
  | PinMode nat pin_mode
  | DigitalWrite nat pin_level
  | SPI_begin nat nat nat nat
  | SetDio2AsRfSwitch bool
  | Radio_begin
  | SetMacVersion int
  | BeginOTAA "64 word" "64 word" "8 word list" "8 word list"
  | ActivateOTAA
  | SendReceive "8 word list" nat

fun is_BeginOTAA :: "event \<Rightarrow> bool" where
  "is_BeginOTAA (BeginOTAA j d n a) = True"
| "is_BeginOTAA e = False"

fun is_SendReceive :: "event \<Rightarrow> bool" where
  "is_SendReceive (SendReceive p n) = True"
| "is_SendReceive e = False"

subsection \<open>Constants\<close>

text \<open>
  The macros of RadioLib that the sketch compares its result codes with, and the one
  it passes to \<^verbatim>\<open>setMacVersion\<close>. RadioLib is not part of the repository, so their
  values are parameters of the model.
\<close>

record radiolib =
  RADIOLIB_ERR_NONE :: int
  RADIOLIB_LORAWAN_NEW_SESSION :: int
  LORAWAN_VERSION_1_0_3 :: int

text \<open>Pin definitions (lines 25 to 40 of TTN.ino).\<close>

definition LORA_CS_PIN :: nat where "LORA_CS_PIN = 8"
definition LORA_SCK_PIN :: nat where "LORA_SCK_PIN = 9"
definition LORA_MISO_PIN :: nat where "LORA_MISO_PIN = 11"
definition LORA_MOSI_PIN :: nat where "LORA_MOSI_PIN = 10"
definition LORA_RF_SW_VDD_PIN :: nat where "LORA_RF_SW_VDD_PIN = 14"

text \<open>The keys (lines 55 to 66): all zero until the operator pastes their own.\<close>

definition joinEUI :: "64 word" where "joinEUI = 0x0000000000000000"
definition devEUI :: "64 word" where "devEUI = 0x0000000000000000"
definition nwkKey :: "8 word list" where
  "nwkKey = [0x00, 0x00, 0x00, 0x00, 0x00, 0x00, 0x00, 0x00,
             0x00, 0x00, 0x00, 0x00, 0x00, 0x00, 0x00, 0x00]"
definition appKey :: "8 word list" where
  "appKey = [0x00, 0x00, 0x00, 0x00, 0x00, 0x00, 0x00, 0x00,
             0x00, 0x00, 0x00, 0x00, 0x00, 0x00, 0x00, 0x00]"

subsection \<open>The environment of \<^verbatim>\<open>setup()\<close>\<close>

text \<open>
  \<open>serial_ready k\<close> is the value of \<^verbatim>\<open>Serial\<close> at the \<open>k\<close>-th evaluation of the
  condition of the wait loop (counting from 0); the three codes are what the driver
  returns from \<^verbatim>\<open>setDio2AsRfSwitch\<close>, \<^verbatim>\<open>begin\<close> and \<^verbatim>\<open>activateOTAA\<close>.
\<close>

record env =
  serial_ready :: "nat \<Rightarrow> bool"
  dio2_code :: int
  begin_code :: int
  activate_code :: int

text \<open>
  Whether \<^verbatim>\<open>setup()\<close> has returned, or is still inside one of its loops when the fuel is
  spent.
\<close>

datatype status = Returned | Running

subsection \<open>The loops of \<^verbatim>\<open>setup()\<close>\<close>

text \<open>
  \<^verbatim>\<open>while (!Serial) { delay(10); }\<close> may run forever, so it is given fuel: at most
  \<open>fuel\<close> evaluations of the condition. The result is the calls made and whether the
  loop has been left.
\<close>

fun wait_serial :: "(nat \<Rightarrow> bool) \<Rightarrow> nat \<Rightarrow> nat \<Rightarrow> event list \<times> bool" where
  "wait_serial ready k 0 = ([], False)"
| "wait_serial ready k (Suc fuel) =
     (if ready k then ([], True)
      else (case wait_serial ready (Suc k) fuel of (es, left) \<Rightarrow> (Delay 10 # es, left)))"

text \<open>
  \<^verbatim>\<open>while (true);\<close> with the same fuel: whether the loop has been left after at most
  \<open>fuel\<close> iterations.
\<close>

fun halt_loop :: "nat \<Rightarrow> bool" where
  "halt_loop 0 = False"
| "halt_loop (Suc fuel) = halt_loop fuel"

subsection \<open>\<^verbatim>\<open>setup()\<close>\<close>

definition setup' :: "radiolib \<Rightarrow> env \<Rightarrow> nat \<Rightarrow> event list \<times> status" where
  "setup' lib env fuel =
     (case wait_serial (serial_ready env) 0 fuel of
        (waits, False) \<Rightarrow> (Serial_begin 115200 # waits, Running)
      | (waits, True) \<Rightarrow>
          (let bring_up = Serial_begin 115200 # waits @
                 [Serial_println ''--------------------------------'',
                  Serial_println ''Heltec V3 Stable LoRaWAN (RadioLib)'',
                  Serial_println ''--------------------------------'',
                  Serial_print ''Powering RF Switch (Pin 14)... '',
                  PinMode LORA_RF_SW_VDD_PIN OUTPUT,
                  DigitalWrite LORA_RF_SW_VDD_PIN HIGH,
                  Serial_println ''OK'',
                  Serial_print ''Configuring SPI... '',
                  SPI_begin LORA_SCK_PIN LORA_MISO_PIN LORA_MOSI_PIN LORA_CS_PIN,
                  Serial_println ''OK'',
                  Serial_print ''Initializing SX1262 radio... '',
                  SetDio2AsRfSwitch True];
               state = dio2_code env;
               rf_switch = bring_up @
                 (if state \<noteq> RADIOLIB_ERR_NONE lib
                  then [Serial_print ''setDio2AsRfSwitch failed! Code: '',
                        Serial_println_int state]
                  else []) @
                 [Radio_begin];
               state = begin_code env;
               (radio_init, go_on) =
                 (if state = RADIOLIB_ERR_NONE lib
                  then (rf_switch @ [Serial_println ''Radio init SUCCEEDED!''], True)
                  else (rf_switch @ [Serial_print ''Radio init FAILED! Code: '',
                                     Serial_println_int state],
                        halt_loop fuel))
           in if \<not> go_on then (radio_init, Running)
              else
                (let state = activate_code env;
                     join = radio_init @
                       [Serial_println ''Forcing LoRaWAN version 1.0.3...'',
                        SetMacVersion (LORAWAN_VERSION_1_0_3 lib),
                        Serial_println ''Configuring OTAA...'',
                        BeginOTAA joinEUI devEUI nwkKey appKey,
                        Serial_println ''Attempting to join TTN (JOIN)...'',
                        ActivateOTAA]
                 in if state = RADIOLIB_LORAWAN_NEW_SESSION lib
                    then (join @ [Serial_println ''!!! JOINED SUCCESSFULLY !!!''], Returned)
                    else (join @
                            [Serial_print ''Join FAILED. Error code: '',
                             Serial_println_int state,
                             Serial_println ''Check Keys (nwkKey/appKey must be identical) and TTN settings (must be 1.0.3).''],
                          Returned))))"

subsection \<open>\<^verbatim>\<open>loop()\<close>\<close>

text \<open>
  \<^verbatim>\<open>millis()\<close> of the Arduino core: the milliseconds since boot as an
  \<^verbatim>\<open>unsigned long\<close>, which has 32 bits on the ESP32-S3, so the count wraps around
  modulo \<open>2 ^ 32\<close>. Its argument is the time since boot, which does not wrap.
\<close>

definition millis :: "nat \<Rightarrow> 32 word" where
  "millis t = word_of_nat t"

text \<open>The one variable that lives across passes: \<^verbatim>\<open>static unsigned long lastSendTime = 0\<close>.\<close>

record state =
  lastSendTime :: "32 word"

definition initial_state :: state where
  "initial_state = \<lparr>lastSendTime = 0\<rparr>"

text \<open>
  What one pass of \<^verbatim>\<open>loop()\<close> gets from outside: the time since boot at its first call
  of \<^verbatim>\<open>millis()\<close> (in the condition), the time at its second call (in the assignment)
  and the code \<^verbatim>\<open>sendReceive\<close> returns. The last two are read only when the pass
  sends.
\<close>

record tick =
  t_check :: nat
  t_stamp :: nat
  tx_code :: int

definition loop :: "radiolib \<Rightarrow> state \<Rightarrow> tick \<Rightarrow> event list \<times> state" where
  "loop lib st tk =
     (if millis (t_check tk) - lastSendTime st > 60000 then
        (let st' = st\<lparr>lastSendTime := millis (t_stamp tk)\<rparr>;
             payload = [0x48, 0x65, 0x6C, 0x6C, 0x6F];
             state = tx_code tk
         in ([Serial_println '''',
              Serial_print ''Sending 'Hello' packet... '',
              SendReceive payload (length payload)] @
             (if state = RADIOLIB_ERR_NONE lib
              then [Serial_println ''Packet sent!'']
              else [Serial_print ''Send FAILED. Error code: '', Serial_println_int state]),
             st'))
      else ([], st))"

subsection \<open>The whole program\<close>

text \<open>The passes of \<^verbatim>\<open>loop()\<close>, one list of calls for each pass.\<close>

fun loops :: "radiolib \<Rightarrow> state \<Rightarrow> tick list \<Rightarrow> event list list" where
  "loops lib st [] = []"
| "loops lib st (tk # tks) =
     (case loop lib st tk of (es, st') \<Rightarrow> es # loops lib st' tks)"

text \<open>
  The Arduino core calls \<^verbatim>\<open>setup()\<close> once and then \<^verbatim>\<open>loop()\<close> forever; when
  \<^verbatim>\<open>setup()\<close> does not return, \<^verbatim>\<open>loop()\<close> is never called. \<open>sketch\<close> is the calls
  made in a prefix of an execution: \<open>fuel\<close> bounds the loops of \<open>setup'\<close>, and \<open>tks\<close>
  are the passes of \<^verbatim>\<open>loop()\<close> made so far.
\<close>

definition sketch :: "radiolib \<Rightarrow> env \<Rightarrow> nat \<Rightarrow> tick list \<Rightarrow> event list" where
  "sketch lib env fuel tks =
     (case setup' lib env fuel of
        (es, Returned) \<Rightarrow> es @ concat (loops lib initial_state tks)
      | (es, Running) \<Rightarrow> es)"

text \<open>Pass \<open>i\<close> of a run of \<^verbatim>\<open>loop()\<close> calls \<^verbatim>\<open>sendReceive\<close>.\<close>

definition sends_at :: "radiolib \<Rightarrow> state \<Rightarrow> tick list \<Rightarrow> nat \<Rightarrow> bool" where
  "sends_at lib st tks i = list_ex is_SendReceive (loops lib st tks ! i)"

subsection \<open>Vocabulary of the properties\<close>

fun is_SetMacVersion :: "event \<Rightarrow> bool" where
  "is_SetMacVersion (SetMacVersion v) = True"
| "is_SetMacVersion e = False"

text \<open>The calls on \<^verbatim>\<open>Serial\<close>, the diagnostic channel.\<close>

fun is_Serial :: "event \<Rightarrow> bool" where
  "is_Serial (Serial_begin b) = True"
| "is_Serial (Serial_print s) = True"
| "is_Serial (Serial_println s) = True"
| "is_Serial (Serial_println_int c) = True"
| "is_Serial e = False"

text \<open>
  The times at which a run of \<^verbatim>\<open>loop()\<close> reads the clock, in program order. The clock
  is monotonic when this list is sorted.
\<close>

definition clock_reads :: "tick list \<Rightarrow> nat list" where
  "clock_reads tks = concat (map (\<lambda>tk. [t_check tk, t_stamp tk]) tks)"

subsection \<open>Concrete inputs\<close>

text \<open>
  The result codes of RadioLib (\<^verbatim>\<open>RADIOLIB_ERR_NONE\<close> is 0,
  \<^verbatim>\<open>RADIOLIB_LORAWAN_NEW_SESSION\<close> is -1118) with some value for the version macro; an
  environment where \<^verbatim>\<open>Serial\<close> is ready from its third poll on; three passes of
  \<^verbatim>\<open>loop()\<close> around the moment the 32-bit clock wraps (at 4294967296 ms); and three
  passes shortly after boot.
\<close>

definition example_lib :: radiolib where
  "example_lib = \<lparr>RADIOLIB_ERR_NONE = 0, RADIOLIB_LORAWAN_NEW_SESSION = - 1118,
                   LORAWAN_VERSION_1_0_3 = 1\<rparr>"

definition example_env :: "int \<Rightarrow> int \<Rightarrow> int \<Rightarrow> env" where
  "example_env d b a = \<lparr>serial_ready = (\<lambda>k. 2 \<le> k), dio2_code = d, begin_code = b,
                         activate_code = a\<rparr>"

definition example_ticks :: "tick list" where
  "example_ticks =
     [\<lparr>t_check = 4294960000, t_stamp = 4294960001, tx_code = 0\<rparr>,
      \<lparr>t_check = 4295020001, t_stamp = 4295020001, tx_code = 0\<rparr>,
      \<lparr>t_check = 4295020002, t_stamp = 4295020003, tx_code = - 1101\<rparr>]"

definition boot_ticks :: "tick list" where
  "boot_ticks =
     [\<lparr>t_check = 10, t_stamp = 10, tx_code = 0\<rparr>,
      \<lparr>t_check = 60000, t_stamp = 60000, tx_code = 0\<rparr>,
      \<lparr>t_check = 60001, t_stamp = 60002, tx_code = 0\<rparr>]"

text \<open>
  The first pass of \<^verbatim>\<open>loop()\<close> when \<^verbatim>\<open>setup()\<close> has taken 75 s, for instance because
  the serial monitor was opened late.
\<close>

definition late_ticks :: "tick list" where
  "late_ticks = [\<lparr>t_check = 75000, t_stamp = 75001, tx_code = 0\<rparr>]"

section \<open>Lemmas\<close>

subsection \<open>The loops of \<^verbatim>\<open>setup()\<close>\<close>

text \<open>
  The wait loop is left exactly when \<^verbatim>\<open>Serial\<close> is ready at one of the polls the fuel
  allows; until then it only calls \<^verbatim>\<open>delay(10)\<close>. \<^verbatim>\<open>while (true);\<close> is never left.
\<close>

lemma wait_serial_not_ready:
  "(\<forall>j<fuel. \<not> ready (k + j)) \<Longrightarrow> wait_serial ready k fuel = (replicate fuel (Delay 10), False)"
proof (induction fuel arbitrary: k)
  case 0
  then show ?case by simp
next
  case (Suc fuel)
  have "\<not> ready k" using Suc.prems by (metis add.right_neutral zero_less_Suc)
  moreover have "\<forall>j<fuel. \<not> ready (Suc k + j)" using Suc.prems
    by (metis Suc_less_eq add_Suc_shift)
  ultimately show ?case using Suc.IH [of "Suc k"] by simp
qed

lemma wait_serial_left:
  "snd (wait_serial ready k fuel) = (\<exists>j<fuel. ready (k + j))"
proof (induction fuel arbitrary: k)
  case 0
  then show ?case by simp
next
  case (Suc fuel)
  show ?case
  proof (cases "ready k")
    case True
    then show ?thesis by (auto intro: exI [of _ 0])
  next
    case False
    have "(\<exists>j<Suc fuel. ready (k + j)) = (\<exists>j<fuel. ready (Suc k + j))"
    proof
      assume "\<exists>j<Suc fuel. ready (k + j)"
      then obtain j where j: "j < Suc fuel" "ready (k + j)" by blast
      with False have "j \<noteq> 0" by (metis add.right_neutral)
      then obtain j' where "j = Suc j'" by (cases j) auto
      with j show "\<exists>j<fuel. ready (Suc k + j)" by auto
    next
      assume "\<exists>j<fuel. ready (Suc k + j)"
      then obtain j where "j < fuel" "ready (Suc k + j)" by blast
      then have "Suc j < Suc fuel" "ready (k + Suc j)" by auto
      then show "\<exists>j<Suc fuel. ready (k + j)" by blast
    qed
    with False Suc.IH [of "Suc k"] show ?thesis by (auto split: prod.splits)
  qed
qed

lemma wait_serial_first:
  "ready (k + n) \<Longrightarrow> \<forall>j<n. \<not> ready (k + j) \<Longrightarrow> n < fuel \<Longrightarrow>
   wait_serial ready k fuel = (replicate n (Delay 10), True)"
proof (induction n arbitrary: k fuel)
  case 0
  then obtain f where "fuel = Suc f" by (cases fuel) auto
  with 0 show ?case by simp
next
  case (Suc n)
  then obtain f where f: "fuel = Suc f" "n < f" by (cases fuel) auto
  have "\<not> ready k" using Suc.prems(2) by (metis add.right_neutral zero_less_Suc)
  moreover have "ready (Suc k + n)" using Suc.prems(1) by simp
  moreover have "\<forall>j<n. \<not> ready (Suc k + j)" using Suc.prems(2)
    by (metis Suc_less_eq add_Suc_shift)
  ultimately show ?case using Suc.IH [of "Suc k" f] f by simp
qed

lemma wait_serial_stable:
  "snd (wait_serial ready k fuel) \<Longrightarrow> fuel \<le> fuel' \<Longrightarrow> wait_serial ready k fuel' = wait_serial ready k fuel"
proof (induction fuel arbitrary: k fuel')
  case 0
  then show ?case by simp
next
  case (Suc fuel)
  then obtain f where f: "fuel' = Suc f" "fuel \<le> f" by (cases fuel') auto
  show ?case
  proof (cases "ready k")
    case True
    then show ?thesis using f by simp
  next
    case False
    with Suc.prems have "snd (wait_serial ready (Suc k) fuel)" by (simp split: prod.splits)
    from Suc.IH [OF this f(2)] False f show ?thesis by simp
  qed
qed

lemma wait_serial_cases:
  obtains (blocked) "\<forall>k<fuel. \<not> ready k"
      and "wait_serial ready 0 fuel = (replicate fuel (Delay 10), False)"
  | (ready) n where "n < fuel" and "ready n" and "\<forall>k<n. \<not> ready k"
      and "wait_serial ready 0 fuel = (replicate n (Delay 10), True)"
proof (cases "\<exists>k<fuel. ready k")
  case False
  then have "\<forall>k<fuel. \<not> ready k" by blast
  moreover from this have "wait_serial ready 0 fuel = (replicate fuel (Delay 10), False)"
    using wait_serial_not_ready [of fuel ready 0] by simp
  ultimately show ?thesis by (rule blocked)
next
  case True
  define n where "n = (LEAST k. ready k)"
  from True obtain k where k: "k < fuel" "ready k" by blast
  have n: "ready n" "n \<le> k" "\<forall>j<n. \<not> ready j"
    using k(2) unfolding n_def by (auto intro: LeastI Least_le dest: not_less_Least)
  then have "wait_serial ready 0 fuel = (replicate n (Delay 10), True)"
    using wait_serial_first [of ready 0 n fuel] k(1) by simp
  with n k show ?thesis by (intro ready [of n]) auto
qed

lemma wait_serial_numeral:
  "wait_serial ready k (numeral n) =
     (if ready k then ([], True)
      else (case wait_serial ready (Suc k) (pred_numeral n) of (es, left) \<Rightarrow> (Delay 10 # es, left)))"
  by (simp add: numeral_eq_Suc)

lemma halt_loop_never: "halt_loop fuel = False"
  by (induction fuel) auto

lemma dropWhile_delays:
  "P (Delay 10) \<Longrightarrow> dropWhile P (replicate n (Delay 10) @ ys) = dropWhile P ys"
  by (induction n) auto

lemma count_list_delays: "a \<noteq> Delay 10 \<Longrightarrow> count_list (replicate n (Delay 10)) a = 0"
  by (induction n) auto

lemma prefix_before_first:
  "xs @ ys = pre @ b # post \<Longrightarrow> \<forall>x\<in>set xs. \<not> Q x \<Longrightarrow> Q b \<Longrightarrow> \<exists>r. pre = xs @ r"
proof (induction xs arbitrary: pre)
  case Nil
  then show ?case by simp
next
  case (Cons x xs)
  then have "pre \<noteq> []" by auto
  then obtain p ps where pre: "pre = p # ps" by (cases pre) auto
  with Cons.prems have "xs @ ys = ps @ b # post" "p = x" by auto
  then obtain r where "ps = xs @ r" using Cons.IH Cons.prems by auto
  with pre \<open>p = x\<close> show ?case by simp
qed

subsection \<open>The calls of \<^verbatim>\<open>setup()\<close>, path by path\<close>

lemma sketch_eq:
  "sketch lib env fuel tks =
     fst (setup' lib env fuel) @
     (if snd (setup' lib env fuel) = Returned then concat (loops lib initial_state tks) else [])"
  by (simp add: sketch_def split: prod.splits status.splits)

lemma setup'_blocked:
  "\<forall>k<fuel. \<not> serial_ready env k \<Longrightarrow>
   setup' lib env fuel = (Serial_begin 115200 # replicate fuel (Delay 10), Running)"
  using wait_serial_not_ready [of fuel "serial_ready env" 0] by (simp add: setup'_def)

lemma setup'_halted:
  assumes "wait_serial (serial_ready env) 0 fuel = (replicate n (Delay 10), True)"
    and "begin_code env \<noteq> RADIOLIB_ERR_NONE lib"
  shows "setup' lib env fuel =
     (Serial_begin 115200 # replicate n (Delay 10) @
        [Serial_println ''--------------------------------'',
         Serial_println ''Heltec V3 Stable LoRaWAN (RadioLib)'',
         Serial_println ''--------------------------------'',
         Serial_print ''Powering RF Switch (Pin 14)... '',
         PinMode 14 OUTPUT,
         DigitalWrite 14 HIGH,
         Serial_println ''OK'',
         Serial_print ''Configuring SPI... '',
         SPI_begin 9 11 10 8,
         Serial_println ''OK'',
         Serial_print ''Initializing SX1262 radio... '',
         SetDio2AsRfSwitch True] @
        (if dio2_code env \<noteq> RADIOLIB_ERR_NONE lib
         then [Serial_print ''setDio2AsRfSwitch failed! Code: '',
               Serial_println_int (dio2_code env)]
         else []) @
        [Radio_begin,
         Serial_print ''Radio init FAILED! Code: '',
         Serial_println_int (begin_code env)],
      Running)"
  using assms
  by (simp add: setup'_def Let_def halt_loop_never LORA_RF_SW_VDD_PIN_def LORA_CS_PIN_def
      LORA_SCK_PIN_def LORA_MISO_PIN_def LORA_MOSI_PIN_def)

lemma setup'_joined:
  assumes "wait_serial (serial_ready env) 0 fuel = (replicate n (Delay 10), True)"
    and "begin_code env = RADIOLIB_ERR_NONE lib"
  shows "setup' lib env fuel =
     (Serial_begin 115200 # replicate n (Delay 10) @
        [Serial_println ''--------------------------------'',
         Serial_println ''Heltec V3 Stable LoRaWAN (RadioLib)'',
         Serial_println ''--------------------------------'',
         Serial_print ''Powering RF Switch (Pin 14)... '',
         PinMode 14 OUTPUT,
         DigitalWrite 14 HIGH,
         Serial_println ''OK'',
         Serial_print ''Configuring SPI... '',
         SPI_begin 9 11 10 8,
         Serial_println ''OK'',
         Serial_print ''Initializing SX1262 radio... '',
         SetDio2AsRfSwitch True] @
        (if dio2_code env \<noteq> RADIOLIB_ERR_NONE lib
         then [Serial_print ''setDio2AsRfSwitch failed! Code: '',
               Serial_println_int (dio2_code env)]
         else []) @
        [Radio_begin,
         Serial_println ''Radio init SUCCEEDED!'',
         Serial_println ''Forcing LoRaWAN version 1.0.3...'',
         SetMacVersion (LORAWAN_VERSION_1_0_3 lib),
         Serial_println ''Configuring OTAA...'',
         BeginOTAA joinEUI devEUI nwkKey appKey,
         Serial_println ''Attempting to join TTN (JOIN)...'',
         ActivateOTAA] @
        (if activate_code env = RADIOLIB_LORAWAN_NEW_SESSION lib
         then [Serial_println ''!!! JOINED SUCCESSFULLY !!!'']
         else [Serial_print ''Join FAILED. Error code: '',
               Serial_println_int (activate_code env),
               Serial_println ''Check Keys (nwkKey/appKey must be identical) and TTN settings (must be 1.0.3).'']),
      Returned)"
  using assms
  by (simp add: setup'_def Let_def LORA_RF_SW_VDD_PIN_def LORA_CS_PIN_def
      LORA_SCK_PIN_def LORA_MISO_PIN_def LORA_MOSI_PIN_def)

subsection \<open>The calls of \<^verbatim>\<open>loop()\<close>\<close>

lemma loops_Cons:
  "loops lib st (tk # tks) = fst (loop lib st tk) # loops lib (snd (loop lib st tk)) tks"
  by (simp split: prod.splits)

lemma loop_sends_iff:
  "list_ex is_SendReceive (fst (loop lib st tk)) = (60000 < millis (t_check tk) - lastSendTime st)"
  by (simp add: loop_def Let_def)

lemma loop_state:
  "snd (loop lib st tk) =
     (if 60000 < millis (t_check tk) - lastSendTime st
      then st\<lparr>lastSendTime := millis (t_stamp tk)\<rparr> else st)"
  by (simp add: loop_def Let_def)

lemma loop_send_count:
  "length (filter is_SendReceive (fst (loop lib st tk))) =
     (if 60000 < millis (t_check tk) - lastSendTime st then 1 else 0)"
  by (simp add: loop_def Let_def)

lemma sends_at_0: "sends_at lib st (tk # tks) 0 = (60000 < millis (t_check tk) - lastSendTime st)"
  by (simp add: sends_at_def loops_Cons loop_sends_iff del: loops.simps)

lemma sends_at_Suc:
  "sends_at lib st (tk # tks) (Suc i) = sends_at lib (snd (loop lib st tk)) tks i"
  by (simp add: sends_at_def loops_Cons del: loops.simps)

lemma pass_send_count:
  "j < length tks \<Longrightarrow>
   length (filter is_SendReceive (loops lib st tks ! j)) = (if sends_at lib st tks j then 1 else 0)"
proof (induction tks arbitrary: st j)
  case Nil
  then show ?case by simp
next
  case (Cons tk tks)
  show ?case
  proof (cases j)
    case 0
    then show ?thesis
      by (simp add: sends_at_0 loops_Cons loop_send_count del: loops.simps)
  next
    case (Suc j')
    then show ?thesis
      using Cons.IH [of j' "snd (loop lib st tk)"] Cons.prems
      by (simp add: sends_at_Suc loops_Cons del: loops.simps)
  qed
qed

lemma loop_calls:
  "e \<in> set (fst (loop lib st tk)) \<Longrightarrow> e = SendReceive [0x48, 0x65, 0x6C, 0x6C, 0x6F] 5 \<or> is_Serial e"
  by (auto simp: loop_def Let_def split: if_splits)

lemma loops_calls:
  "e \<in> set (concat (loops lib st tks)) \<Longrightarrow>
   e = SendReceive [0x48, 0x65, 0x6C, 0x6C, 0x6F] 5 \<or> is_Serial e"
proof (induction tks arbitrary: st)
  case Nil
  then show ?case by simp
next
  case (Cons tk tks)
  then show ?case
    using loop_calls [of e lib st tk] by (auto simp: loops_Cons simp del: loops.simps)
qed

lemma loops_no_activate: "count_list (concat (loops lib st tks)) ActivateOTAA = 0"
proof -
  have "ActivateOTAA \<notin> set (concat (loops lib st tks))"
    using loops_calls [of ActivateOTAA lib st tks] by auto
  then show ?thesis by (simp add: count_list_0_iff)
qed

lemma setup'_no_send: "e \<in> set (fst (setup' lib env fuel)) \<Longrightarrow> \<not> is_SendReceive e"
proof (cases rule: wait_serial_cases [where fuel = fuel and ready = "serial_ready env"])
  case blocked
  assume "e \<in> set (fst (setup' lib env fuel))"
  then show ?thesis using setup'_blocked [OF blocked(1), of lib] by auto
next
  case (ready n)
  assume e: "e \<in> set (fst (setup' lib env fuel))"
  show ?thesis
  proof (cases "begin_code env = RADIOLIB_ERR_NONE lib")
    case True
    show ?thesis using e unfolding setup'_joined [OF ready(4) True]
      by (auto split: if_splits)
  next
    case False
    show ?thesis using e unfolding setup'_halted [OF ready(4) False]
      by (auto split: if_splits)
  qed
qed

subsection \<open>The clock\<close>

text \<open>
  When time has not gone back, a difference of two readings that exceeds 60000 in
  32-bit arithmetic means that more than 60000 ms have passed, wrapped or not.
\<close>

lemma word_gap:
  assumes "a \<le> b" and "(60000 :: 32 word) < millis b - millis a"
  shows "a + 60000 < b"
proof -
  have "millis b - millis a = (word_of_nat (b - a) :: 32 word)"
    using assms(1) by (simp add: millis_def of_nat_diff)
  then have "unat (60000 :: 32 word) < unat (word_of_nat (b - a) :: 32 word)"
    using assms(2) by (simp add: word_less_nat_alt)
  moreover have "unat (word_of_nat (b - a) :: 32 word) \<le> b - a"
    by (simp add: unat_of_nat)
  ultimately show ?thesis by simp
qed


lemma clock_reads_Cons: "clock_reads (tk # tks) = t_check tk # t_stamp tk # clock_reads tks"
  by (simp add: clock_reads_def)

lemma gap_from:
  assumes "lastSendTime st = millis T0"
    and "\<forall>t \<in> set (clock_reads tks). T0 \<le> t"
    and "sorted (clock_reads tks)"
    and "j < length tks"
    and "sends_at lib st tks j"
  shows "T0 + 60000 < t_check (tks ! j)"
  using assms
proof (induction tks arbitrary: st T0 j)
  case Nil
  then show ?case by simp
next
  case (Cons tk tks)
  show ?case
  proof (cases j)
    case 0
    with Cons.prems have "60000 < millis (t_check tk) - millis T0"
      by (simp add: sends_at_0)
    moreover have "T0 \<le> t_check tk" using Cons.prems(2) by (simp add: clock_reads_Cons)
    ultimately show ?thesis using 0 word_gap by simp
  next
    case (Suc j')
    have later: "sends_at lib (snd (loop lib st tk)) tks j'" "j' < length tks"
      using Cons.prems Suc by (simp_all add: sends_at_Suc)
    have srt: "sorted (clock_reads tks)" using Cons.prems(3) by (simp add: clock_reads_Cons)
    show ?thesis
    proof (cases "60000 < millis (t_check tk) - lastSendTime st")
      case True
      then have "lastSendTime (snd (loop lib st tk)) = millis (t_stamp tk)"
        by (simp add: loop_state)
      moreover have "\<forall>t \<in> set (clock_reads tks). t_stamp tk \<le> t"
        using Cons.prems(3) by (simp add: clock_reads_Cons)
      ultimately have "t_stamp tk + 60000 < t_check (tks ! j')"
        using Cons.IH srt later by blast
      moreover have "T0 \<le> t_stamp tk" using Cons.prems(2) by (simp add: clock_reads_Cons)
      ultimately show ?thesis using Suc by simp
    next
      case False
      then have "lastSendTime (snd (loop lib st tk)) = millis T0"
        using Cons.prems(1) by (simp add: loop_state)
      moreover have "\<forall>t \<in> set (clock_reads tks). T0 \<le> t"
        using Cons.prems(2) by (simp add: clock_reads_Cons)
      ultimately have "T0 + 60000 < t_check (tks ! j')"
        using Cons.IH srt later by blast
      then show ?thesis using Suc by simp
    qed
  qed
qed

lemma gap_between:
  assumes "sorted (clock_reads tks)"
    and "i < j" and "j < length tks"
    and "sends_at lib st tks i" and "sends_at lib st tks j"
  shows "t_stamp (tks ! i) + 60000 < t_check (tks ! j)"
  using assms
proof (induction tks arbitrary: st i j)
  case Nil
  then show ?case by simp
next
  case (Cons tk tks)
  from Cons.prems obtain j' where j: "j = Suc j'" by (cases j) auto
  have srt: "sorted (clock_reads tks)" using Cons.prems(1) by (simp add: clock_reads_Cons)
  have later: "sends_at lib (snd (loop lib st tk)) tks j'" "j' < length tks"
    using Cons.prems j by (simp_all add: sends_at_Suc)
  show ?case
  proof (cases i)
    case 0
    with Cons.prems have "lastSendTime (snd (loop lib st tk)) = millis (t_stamp tk)"
      by (simp add: sends_at_0 loop_state)
    moreover have "\<forall>t \<in> set (clock_reads tks). t_stamp tk \<le> t"
      using Cons.prems(1) by (simp add: clock_reads_Cons)
    ultimately have "t_stamp tk + 60000 < t_check (tks ! j')"
      using gap_from srt later by blast
    then show ?thesis using 0 j by simp
  next
    case (Suc i')
    then have "sends_at lib (snd (loop lib st tk)) tks i'" "i' < j'"
      using Cons.prems j by (simp_all add: sends_at_Suc)
    then have "t_stamp (tks ! i') + 60000 < t_check (tks ! j')"
      using Cons.IH srt later by blast
    then show ?thesis using Suc j by simp
  qed
qed


subsection \<open>Evaluation on the concrete inputs\<close>

lemmas example_simps =
  example_lib_def example_env_def example_ticks_def boot_ticks_def late_ticks_def sketch_def
  setup'_def
  loop_def millis_def initial_state_def sends_at_def clock_reads_def Let_def
  LORA_RF_SW_VDD_PIN_def LORA_CS_PIN_def LORA_SCK_PIN_def LORA_MISO_PIN_def LORA_MOSI_PIN_def
  wait_serial_numeral halt_loop_never

lemma example_ready: "\<exists>k<3. serial_ready (example_env d b a) k"
  by (rule exI [of _ 2]) (simp add: example_env_def)

section \<open>Properties of the sketch\<close>

text \<open>
  C1. In every run of the main loop under a monotonic clock, \<^verbatim>\<open>sendReceive\<close> is called
  at most once per interval of 60000 ms: a pass calls it exactly when the 32-bit
  difference between the clock and \<open>lastSendTime\<close> exceeds 60000, no pass calls it
  twice, and between two passes that call it more than 60000 ms pass, from the time
  stamped by the earlier to the time checked by the later. The times are those since
  boot, so this holds across the wrap of the 32-bit clock as well.
\<close>

theorem uplink_at_most_once_per_interval:
  assumes "sorted (clock_reads tks)"
    and "i < j" and "j < length tks"
    and "sends_at lib st tks i" and "sends_at lib st tks j"
  shows "(\<forall>s tk. list_ex is_SendReceive (fst (loop lib s tk)) =
                  (60000 < millis (t_check tk) - lastSendTime s)) \<and>
         (\<forall>k<length tks. length (filter is_SendReceive (loops lib st tks ! k)) \<le> 1) \<and>
         t_stamp (tks ! i) + 60000 < t_check (tks ! j)"
  using gap_between [OF assms] by (simp add: loop_sends_iff pass_send_count)

theorem uplink_at_most_once_per_interval_witness:
  "sorted (clock_reads example_ticks) \<and>
   sends_at example_lib initial_state example_ticks 0 \<and>
   \<not> sends_at example_lib initial_state example_ticks 1 \<and>
   sends_at example_lib initial_state example_ticks 2 \<and>
   millis (t_check (example_ticks ! 2)) < millis (t_stamp (example_ticks ! 0)) \<and>
   t_stamp (example_ticks ! 0) + 60000 < t_check (example_ticks ! 2)"
  using uplink_at_most_once_per_interval [of example_ticks 0 2 example_lib initial_state]
  by (simp add: example_simps)

text \<open>
  C2, as the code has it. When the join fails (\<^verbatim>\<open>activateOTAA\<close> returns a code other than
  \<^verbatim>\<open>RADIOLIB_LORAWAN_NEW_SESSION\<close>), \<^verbatim>\<open>setup()\<close> still returns and the sketch keeps
  running; \<^verbatim>\<open>activateOTAA\<close> is called once and never again, so nothing leaves the failed
  state; and \<^verbatim>\<open>loop()\<close> calls \<^verbatim>\<open>sendReceive\<close> on its schedule all the same, since it
  never looks at the outcome of the join.
\<close>

theorem join_failure_keeps_running:
  assumes "\<exists>k<fuel. serial_ready env k"
    and "begin_code env = RADIOLIB_ERR_NONE lib"
    and "activate_code env \<noteq> RADIOLIB_LORAWAN_NEW_SESSION lib"
  shows "snd (setup' lib env fuel) = Returned \<and>
         count_list (sketch lib env fuel tks) ActivateOTAA = 1 \<and>
         filter is_SendReceive (sketch lib env fuel tks) =
           filter is_SendReceive (concat (loops lib initial_state tks))"
proof (cases rule: wait_serial_cases [where fuel = fuel and ready = "serial_ready env"])
  case blocked
  then show ?thesis using assms(1) by blast
next
  case (ready n)
  have "snd (setup' lib env fuel) = Returned"
    unfolding setup'_joined [OF ready(4) assms(2)] by simp
  moreover have "count_list (fst (setup' lib env fuel)) ActivateOTAA = 1"
    unfolding setup'_joined [OF ready(4) assms(2)] by (simp add: count_list_delays)
  moreover have "filter is_SendReceive (fst (setup' lib env fuel)) = []"
    using setup'_no_send [of _ lib env fuel] by (simp add: filter_empty_conv)
  ultimately show ?thesis by (simp add: sketch_eq loops_no_activate)
qed

theorem join_failure_keeps_running_witness:
  "serial_ready (example_env 0 0 (- 1116)) 2 \<and>
   snd (setup' example_lib (example_env 0 0 (- 1116)) 3) = Returned \<and>
   count_list (sketch example_lib (example_env 0 0 (- 1116)) 3 boot_ticks) ActivateOTAA = 1 \<and>
   filter is_SendReceive (sketch example_lib (example_env 0 0 (- 1116)) 3 boot_ticks) =
     [SendReceive [0x48, 0x65, 0x6C, 0x6C, 0x6F] 5]"
proof -
  have "\<exists>k<3. serial_ready (example_env 0 0 (- 1116)) k"
    by (rule exI [of _ 2]) (simp add: example_env_def)
  from join_failure_keeps_running [OF this, of example_lib boot_ticks]
  show ?thesis by (simp add: example_simps)
qed

text \<open>
  C2, as stated, fails: after a join that failed with code -1116, the pass of
  \<^verbatim>\<open>loop()\<close> at 60001 ms calls \<^verbatim>\<open>sendReceive\<close>.
\<close>

theorem join_failure_then_send_counterexample:
  "activate_code (example_env 0 0 (- 1116)) \<noteq> RADIOLIB_LORAWAN_NEW_SESSION example_lib \<and>
   sketch example_lib (example_env 0 0 (- 1116)) 3 boot_ticks =
     fst (setup' example_lib (example_env 0 0 (- 1116)) 3) @
     [Serial_println '''',
      Serial_print ''Sending 'Hello' packet... '',
      SendReceive [0x48, 0x65, 0x6C, 0x6C, 0x6F] 5,
      Serial_println ''Packet sent!''] \<and>
   last (fst (setup' example_lib (example_env 0 0 (- 1116)) 3)) =
     Serial_println ''Check Keys (nwkKey/appKey must be identical) and TTN settings (must be 1.0.3).''"
  by (simp add: example_simps)

text \<open>
  C3. For every code returned by \<^verbatim>\<open>activateOTAA\<close>: \<^verbatim>\<open>setup()\<close> returns, and what follows
  the call is the success message when the code is \<^verbatim>\<open>RADIOLIB_LORAWAN_NEW_SESSION\<close>,
  and otherwise the failure report, which prints that very code.
\<close>

theorem join_outcome_reported:
  assumes "\<exists>k<fuel. serial_ready env k" and "begin_code env = RADIOLIB_ERR_NONE lib"
  shows "snd (setup' lib env fuel) = Returned \<and>
         dropWhile (\<lambda>e. e \<noteq> ActivateOTAA) (fst (setup' lib env fuel)) =
           ActivateOTAA #
           (if activate_code env = RADIOLIB_LORAWAN_NEW_SESSION lib
            then [Serial_println ''!!! JOINED SUCCESSFULLY !!!'']
            else [Serial_print ''Join FAILED. Error code: '',
                  Serial_println_int (activate_code env),
                  Serial_println ''Check Keys (nwkKey/appKey must be identical) and TTN settings (must be 1.0.3).''])"
proof (cases rule: wait_serial_cases [where fuel = fuel and ready = "serial_ready env"])
  case blocked
  then show ?thesis using assms(1) by blast
next
  case (ready n)
  show ?thesis unfolding setup'_joined [OF ready(4) assms(2)] by (simp add: dropWhile_delays)
qed

theorem join_outcome_reported_witness:
  "begin_code (example_env 0 0 (- 1116)) = RADIOLIB_ERR_NONE example_lib \<and>
   activate_code (example_env 0 0 (- 1116)) \<noteq> RADIOLIB_LORAWAN_NEW_SESSION example_lib \<and>
   snd (setup' example_lib (example_env 0 0 (- 1116)) 3) = Returned \<and>
   dropWhile (\<lambda>e. e \<noteq> ActivateOTAA) (fst (setup' example_lib (example_env 0 0 (- 1116)) 3)) =
     [ActivateOTAA,
      Serial_print ''Join FAILED. Error code: '',
      Serial_println_int (- 1116),
      Serial_println ''Check Keys (nwkKey/appKey must be identical) and TTN settings (must be 1.0.3).''] \<and>
   dropWhile (\<lambda>e. e \<noteq> ActivateOTAA) (fst (setup' example_lib (example_env 0 0 (- 1118)) 3)) =
     [ActivateOTAA, Serial_println ''!!! JOINED SUCCESSFULLY !!!'']"
  using join_outcome_reported [OF example_ready [of 0 0 "- 1116"], where lib = example_lib]
    join_outcome_reported [OF example_ready [of 0 0 "- 1118"], where lib = example_lib]
  by (simp add: example_lib_def example_env_def)

text \<open>
  C4. In every execution, wherever \<^verbatim>\<open>radio.begin()\<close> is called, pin 14 has been made an
  output and, right after, driven HIGH before that call.
\<close>

theorem rf_switch_powered_before_radio_begin:
  assumes "sketch lib env fuel tks = pre @ Radio_begin # post"
  shows "\<exists>a b. pre = a @ PinMode 14 OUTPUT # DigitalWrite 14 HIGH # b"
proof (cases rule: wait_serial_cases [where fuel = fuel and ready = "serial_ready env"])
  case blocked
  have "Radio_begin \<in> set (sketch lib env fuel tks)" using assms by simp
  then show ?thesis using setup'_blocked [OF blocked(1), of lib] by (auto simp: sketch_eq)
next
  case (ready n)
  define a where "a = Serial_begin 115200 # replicate n (Delay 10) @
        [Serial_println ''--------------------------------'',
         Serial_println ''Heltec V3 Stable LoRaWAN (RadioLib)'',
         Serial_println ''--------------------------------'',
         Serial_print ''Powering RF Switch (Pin 14)... '']"
  have "\<exists>rest. sketch lib env fuel tks = (a @ [PinMode 14 OUTPUT, DigitalWrite 14 HIGH]) @ rest"
  proof (cases "begin_code env = RADIOLIB_ERR_NONE lib")
    case True
    show ?thesis unfolding sketch_eq setup'_joined [OF ready(4) True] a_def by simp
  next
    case False
    show ?thesis unfolding sketch_eq setup'_halted [OF ready(4) False] a_def by simp
  qed
  then obtain rest where "(a @ [PinMode 14 OUTPUT, DigitalWrite 14 HIGH]) @ rest = pre @ Radio_begin # post"
    using assms by auto
  moreover have "\<forall>x\<in>set (a @ [PinMode 14 OUTPUT, DigitalWrite 14 HIGH]). \<not> (x = Radio_begin)"
    by (auto simp: a_def)
  ultimately obtain r where "pre = (a @ [PinMode 14 OUTPUT, DigitalWrite 14 HIGH]) @ r"
    using prefix_before_first [where Q = "\<lambda>x. x = Radio_begin"] by blast
  then have "pre = a @ PinMode 14 OUTPUT # DigitalWrite 14 HIGH # r" by simp
  then show ?thesis by blast
qed

theorem rf_switch_powered_before_radio_begin_witness:
  "Radio_begin \<in> set (sketch example_lib (example_env 0 0 0) 3 boot_ticks) \<and>
   (\<exists>a b. takeWhile (\<lambda>e. e \<noteq> Radio_begin) (sketch example_lib (example_env 0 0 0) 3 boot_ticks) =
      a @ PinMode 14 OUTPUT # DigitalWrite 14 HIGH # b)"
proof -
  let ?log = "sketch example_lib (example_env 0 0 0) 3 boot_ticks"
  have "?log = takeWhile (\<lambda>e. e \<noteq> Radio_begin) ?log @ Radio_begin # tl (dropWhile (\<lambda>e. e \<noteq> Radio_begin) ?log)"
    by (simp add: example_simps)
  from rf_switch_powered_before_radio_begin [OF this]
  show ?thesis by (simp add: example_simps)
qed

text \<open>
  C5. In every execution, wherever \<^verbatim>\<open>beginOTAA\<close> or \<^verbatim>\<open>activateOTAA\<close> is called,
  \<^verbatim>\<open>setMacVersion(LORAWAN_VERSION_1_0_3)\<close> has been called before.
\<close>

theorem mac_version_forced_before_activation:
  assumes "sketch lib env fuel tks = pre @ e # post"
    and "is_BeginOTAA e \<or> e = ActivateOTAA"
  shows "SetMacVersion (LORAWAN_VERSION_1_0_3 lib) \<in> set pre"
proof (cases rule: wait_serial_cases [where fuel = fuel and ready = "serial_ready env"])
  case blocked
  have "e \<in> set (sketch lib env fuel tks)" using assms by simp
  then show ?thesis using setup'_blocked [OF blocked(1), of lib] assms(2)
    by (auto simp: sketch_eq)
next
  case (ready n)
  show ?thesis
  proof (cases "begin_code env = RADIOLIB_ERR_NONE lib")
    case False
    have "e \<in> set (sketch lib env fuel tks)" using assms by simp
    then show ?thesis using assms(2) unfolding sketch_eq setup'_halted [OF ready(4) False]
      by (auto split: if_splits)
  next
    case True
    define a where "a = Serial_begin 115200 # replicate n (Delay 10) @
        [Serial_println ''--------------------------------'',
         Serial_println ''Heltec V3 Stable LoRaWAN (RadioLib)'',
         Serial_println ''--------------------------------'',
         Serial_print ''Powering RF Switch (Pin 14)... '',
         PinMode 14 OUTPUT,
         DigitalWrite 14 HIGH,
         Serial_println ''OK'',
         Serial_print ''Configuring SPI... '',
         SPI_begin 9 11 10 8,
         Serial_println ''OK'',
         Serial_print ''Initializing SX1262 radio... '',
         SetDio2AsRfSwitch True] @
        (if dio2_code env \<noteq> RADIOLIB_ERR_NONE lib
         then [Serial_print ''setDio2AsRfSwitch failed! Code: '',
               Serial_println_int (dio2_code env)]
         else []) @
        [Radio_begin,
         Serial_println ''Radio init SUCCEEDED!'',
         Serial_println ''Forcing LoRaWAN version 1.0.3...'',
         SetMacVersion (LORAWAN_VERSION_1_0_3 lib)]"
    have "\<exists>rest. sketch lib env fuel tks = a @ rest"
      unfolding sketch_eq setup'_joined [OF ready(4) True] a_def by simp
    then obtain rest where "a @ rest = pre @ e # post" using assms(1) by auto
    moreover have "\<forall>x\<in>set a. \<not> (is_BeginOTAA x \<or> x = ActivateOTAA)"
      by (auto simp: a_def)
    ultimately obtain r where "pre = a @ r"
      using prefix_before_first [where Q = "\<lambda>x. is_BeginOTAA x \<or> x = ActivateOTAA"] assms(2)
      by blast
    then show ?thesis by (simp add: a_def)
  qed
qed

theorem mac_version_forced_before_activation_witness:
  "ActivateOTAA \<in> set (sketch example_lib (example_env 0 0 0) 3 boot_ticks) \<and>
   SetMacVersion 1 \<in>
     set (takeWhile (\<lambda>e. \<not> is_BeginOTAA e) (sketch example_lib (example_env 0 0 0) 3 boot_ticks)) \<and>
   SetMacVersion 1 \<in>
     set (takeWhile (\<lambda>e. e \<noteq> ActivateOTAA) (sketch example_lib (example_env 0 0 0) 3 boot_ticks))"
proof -
  let ?log = "sketch example_lib (example_env 0 0 0) 3 boot_ticks"
  have a: "?log = takeWhile (\<lambda>e. e \<noteq> ActivateOTAA) ?log @
                   ActivateOTAA # tl (dropWhile (\<lambda>e. e \<noteq> ActivateOTAA) ?log)"
    by (simp add: example_simps)
  have b: "?log = takeWhile (\<lambda>e. \<not> is_BeginOTAA e) ?log @
                   BeginOTAA joinEUI devEUI nwkKey appKey # tl (dropWhile (\<lambda>e. \<not> is_BeginOTAA e) ?log)"
    by (simp add: example_simps)
  from mac_version_forced_before_activation [OF a] mac_version_forced_before_activation [OF b]
  show ?thesis by (simp add: example_simps)
qed

text \<open>
  C6. When \<^verbatim>\<open>radio.begin()\<close> returns a code other than \<^verbatim>\<open>RADIOLIB_ERR_NONE\<close>,
  \<^verbatim>\<open>setup()\<close> never returns, however long it runs; no execution calls
  \<^verbatim>\<open>setMacVersion\<close>, \<^verbatim>\<open>beginOTAA\<close>, \<^verbatim>\<open>activateOTAA\<close> or \<^verbatim>\<open>sendReceive\<close>; and once
  the failure is reported nothing more is called: a longer execution makes the same
  calls.
\<close>

theorem radio_init_failure_halts:
  assumes "begin_code env \<noteq> RADIOLIB_ERR_NONE lib"
  shows "snd (setup' lib env fuel) = Running \<and>
         list_all (\<lambda>e. \<not> is_SetMacVersion e \<and> \<not> is_BeginOTAA e \<and> e \<noteq> ActivateOTAA \<and>
                     \<not> is_SendReceive e) (sketch lib env fuel tks) \<and>
         ((\<exists>k<fuel. serial_ready env k) \<and> fuel \<le> fuel' \<longrightarrow>
            sketch lib env fuel' tks' = sketch lib env fuel tks)"
proof (cases rule: wait_serial_cases [where fuel = fuel and ready = "serial_ready env"])
  case blocked
  then show ?thesis using setup'_blocked [OF blocked(1), of lib]
    by (auto simp: sketch_eq list_all_iff)
next
  case (ready n)
  have "wait_serial (serial_ready env) 0 fuel' = (replicate n (Delay 10), True)" if "fuel \<le> fuel'"
    using wait_serial_stable [of "serial_ready env" 0 fuel fuel'] ready(4) that by simp
  then have "fuel \<le> fuel' \<Longrightarrow> setup' lib env fuel' = setup' lib env fuel"
    using setup'_halted [OF _ assms] ready(4) by simp
  moreover have "snd (setup' lib env fuel) = Running"
    by (simp add: setup'_halted [OF ready(4) assms])
  moreover from this have "snd (setup' lib env fuel') = Running" if "fuel \<le> fuel'"
    using calculation(1) that by simp
  moreover have "list_all (\<lambda>e. \<not> is_SetMacVersion e \<and> \<not> is_BeginOTAA e \<and> e \<noteq> ActivateOTAA \<and>
                     \<not> is_SendReceive e) (fst (setup' lib env fuel))"
    by (auto simp: setup'_halted [OF ready(4) assms] list_all_iff)
  ultimately show ?thesis by (simp add: sketch_eq)
qed

theorem radio_init_failure_halts_witness:
  "begin_code (example_env 0 (- 2) 0) \<noteq> RADIOLIB_ERR_NONE example_lib \<and>
   snd (setup' example_lib (example_env 0 (- 2) 0) 3) = Running \<and>
   last (sketch example_lib (example_env 0 (- 2) 0) 3 boot_ticks) = Serial_println_int (- 2) \<and>
   list_all (\<lambda>e. \<not> is_SetMacVersion e \<and> \<not> is_BeginOTAA e \<and> e \<noteq> ActivateOTAA \<and> \<not> is_SendReceive e)
     (sketch example_lib (example_env 0 (- 2) 0) 3 boot_ticks) \<and>
   sketch example_lib (example_env 0 (- 2) 0) 7 example_ticks =
     sketch example_lib (example_env 0 (- 2) 0) 3 boot_ticks"
  using radio_init_failure_halts [of "example_env 0 (- 2) 0" example_lib 3 boot_ticks 7 example_ticks]
    example_ready [of 0 "- 2" 0]
  by (simp add: example_simps)

text \<open>
  C7. When \<^verbatim>\<open>setDio2AsRfSwitch\<close> returns an error code, whichever it is, the code is
  printed and \<^verbatim>\<open>radio.begin()\<close> is called next; but for the two calls of the report,
  \<^verbatim>\<open>setup()\<close> does what it does when the code is \<^verbatim>\<open>RADIOLIB_ERR_NONE\<close>, and when the
  radio initialises it goes on to \<^verbatim>\<open>activateOTAA\<close> and returns.
\<close>

theorem rf_switch_failure_not_fatal:
  assumes "\<exists>k<fuel. serial_ready env k" and "dio2_code env \<noteq> RADIOLIB_ERR_NONE lib"
  shows "\<exists>pre post.
           fst (setup' lib env fuel) =
             pre @ [SetDio2AsRfSwitch True,
                    Serial_print ''setDio2AsRfSwitch failed! Code: '',
                    Serial_println_int (dio2_code env),
                    Radio_begin] @ post \<and>
           setup' lib (env\<lparr>dio2_code := RADIOLIB_ERR_NONE lib\<rparr>) fuel =
             (pre @ [SetDio2AsRfSwitch True, Radio_begin] @ post, snd (setup' lib env fuel)) \<and>
           (begin_code env = RADIOLIB_ERR_NONE lib \<longrightarrow>
              ActivateOTAA \<in> set post \<and> snd (setup' lib env fuel) = Returned)"
proof (cases rule: wait_serial_cases [where fuel = fuel and ready = "serial_ready env"])
  case blocked
  then show ?thesis using assms(1) by blast
next
  case (ready n)
  let ?env = "env\<lparr>dio2_code := RADIOLIB_ERR_NONE lib\<rparr>"
  have w: "wait_serial (serial_ready ?env) 0 fuel = (replicate n (Delay 10), True)"
    using ready(4) by simp
  define pre where "pre = Serial_begin 115200 # replicate n (Delay 10) @
        [Serial_println ''--------------------------------'',
         Serial_println ''Heltec V3 Stable LoRaWAN (RadioLib)'',
         Serial_println ''--------------------------------'',
         Serial_print ''Powering RF Switch (Pin 14)... '',
         PinMode 14 OUTPUT,
         DigitalWrite 14 HIGH,
         Serial_println ''OK'',
         Serial_print ''Configuring SPI... '',
         SPI_begin 9 11 10 8,
         Serial_println ''OK'',
         Serial_print ''Initializing SX1262 radio... '']"
  show ?thesis
  proof (cases "begin_code env = RADIOLIB_ERR_NONE lib")
    case True
    then have t: "begin_code ?env = RADIOLIB_ERR_NONE lib" by simp
    define post where "post =
        [Serial_println ''Radio init SUCCEEDED!'',
         Serial_println ''Forcing LoRaWAN version 1.0.3...'',
         SetMacVersion (LORAWAN_VERSION_1_0_3 lib),
         Serial_println ''Configuring OTAA...'',
         BeginOTAA joinEUI devEUI nwkKey appKey,
         Serial_println ''Attempting to join TTN (JOIN)...'',
         ActivateOTAA] @
        (if activate_code env = RADIOLIB_LORAWAN_NEW_SESSION lib
         then [Serial_println ''!!! JOINED SUCCESSFULLY !!!'']
         else [Serial_print ''Join FAILED. Error code: '',
               Serial_println_int (activate_code env),
               Serial_println ''Check Keys (nwkKey/appKey must be identical) and TTN settings (must be 1.0.3).''])"
    have "fst (setup' lib env fuel) =
             pre @ [SetDio2AsRfSwitch True,
                    Serial_print ''setDio2AsRfSwitch failed! Code: '',
                    Serial_println_int (dio2_code env),
                    Radio_begin] @ post"
      unfolding setup'_joined [OF ready(4) True] pre_def post_def using assms(2) by simp
    moreover have "snd (setup' lib env fuel) = Returned"
      unfolding setup'_joined [OF ready(4) True] by simp
    moreover have "setup' lib ?env fuel = (pre @ [SetDio2AsRfSwitch True, Radio_begin] @ post, Returned)"
      unfolding setup'_joined [OF w t] pre_def post_def by simp
    moreover have "ActivateOTAA \<in> set post" by (simp add: post_def)
    ultimately show ?thesis by auto
  next
    case False
    then have f: "begin_code ?env \<noteq> RADIOLIB_ERR_NONE lib" by simp
    define post where "post =
        [Serial_print ''Radio init FAILED! Code: '', Serial_println_int (begin_code env)]"
    have "fst (setup' lib env fuel) =
             pre @ [SetDio2AsRfSwitch True,
                    Serial_print ''setDio2AsRfSwitch failed! Code: '',
                    Serial_println_int (dio2_code env),
                    Radio_begin] @ post"
      unfolding setup'_halted [OF ready(4) False] pre_def post_def using assms(2) by simp
    moreover have "snd (setup' lib env fuel) = Running"
      unfolding setup'_halted [OF ready(4) False] by simp
    moreover have "setup' lib ?env fuel = (pre @ [SetDio2AsRfSwitch True, Radio_begin] @ post, Running)"
      unfolding setup'_halted [OF w f] pre_def post_def by simp
    ultimately show ?thesis using False by auto
  qed
qed

theorem rf_switch_failure_not_fatal_witness:
  "dio2_code (example_env (- 705) 0 0) \<noteq> RADIOLIB_ERR_NONE example_lib \<and>
   (\<exists>pre post.
      fst (setup' example_lib (example_env (- 705) 0 0) 3) =
        pre @ [SetDio2AsRfSwitch True,
               Serial_print ''setDio2AsRfSwitch failed! Code: '',
               Serial_println_int (- 705),
               Radio_begin] @ post \<and>
      setup' example_lib (example_env 0 0 0) 3 =
        (pre @ [SetDio2AsRfSwitch True, Radio_begin] @ post, Returned) \<and>
      ActivateOTAA \<in> set post)"
proof -
  have "dio2_code (example_env (- 705) 0 0) \<noteq> RADIOLIB_ERR_NONE example_lib"
    by (simp add: example_lib_def example_env_def)
  from rf_switch_failure_not_fatal [OF example_ready this]
  obtain pre post where
    "fst (setup' example_lib (example_env (- 705) 0 0) 3) =
       pre @ [SetDio2AsRfSwitch True,
              Serial_print ''setDio2AsRfSwitch failed! Code: '',
              Serial_println_int (- 705),
              Radio_begin] @ post"
    "setup' example_lib (example_env 0 0 0) 3 =
       (pre @ [SetDio2AsRfSwitch True, Radio_begin] @ post, Returned)"
    "ActivateOTAA \<in> set post"
    by (auto simp: example_lib_def example_env_def)
  with \<open>dio2_code (example_env (- 705) 0 0) \<noteq> RADIOLIB_ERR_NONE example_lib\<close>
  show ?thesis by blast
qed

text \<open>
  C8. Every call of \<^verbatim>\<open>sendReceive\<close>, in every execution, passes the five bytes
  0x48, 0x65, 0x6C, 0x6C, 0x6F and the length 5.
\<close>

theorem uplink_payload_fixed:
  assumes "e \<in> set (sketch lib env fuel tks)" and "is_SendReceive e"
  shows "e = SendReceive [0x48, 0x65, 0x6C, 0x6C, 0x6F] 5"
proof -
  from assms(1) have "e \<in> set (fst (setup' lib env fuel)) \<or> e \<in> set (concat (loops lib initial_state tks))"
    by (auto simp: sketch_eq split: if_splits)
  then show ?thesis
  proof
    assume "e \<in> set (fst (setup' lib env fuel))"
    then show ?thesis using setup'_no_send assms(2) by blast
  next
    assume "e \<in> set (concat (loops lib initial_state tks))"
    then have "e = SendReceive [0x48, 0x65, 0x6C, 0x6C, 0x6F] 5 \<or> is_Serial e"
      by (rule loops_calls)
    then show ?thesis using assms(2) by (cases e) auto
  qed
qed

theorem uplink_payload_fixed_witness:
  "list_ex is_SendReceive (sketch example_lib (example_env 0 0 0) 3 boot_ticks) \<and>
   hd (filter is_SendReceive (sketch example_lib (example_env 0 0 0) 3 boot_ticks)) =
     SendReceive [0x48, 0x65, 0x6C, 0x6C, 0x6F] 5"
proof -
  let ?log = "sketch example_lib (example_env 0 0 0) 3 boot_ticks"
  have "hd (filter is_SendReceive ?log) \<in> set ?log" "is_SendReceive (hd (filter is_SendReceive ?log))"
    by (simp_all add: example_simps)
  from uplink_payload_fixed [OF this] show ?thesis by (simp add: example_simps)
qed

text \<open>
  C9. For as long as \<^verbatim>\<open>Serial\<close> has not reported ready, the sketch has called nothing
  but \<^verbatim>\<open>Serial.begin\<close> and \<^verbatim>\<open>delay(10)\<close>, once for each poll. When it never becomes
  ready this holds of every execution, however long: no pin is configured, the radio is
  not initialised and no join is attempted.
\<close>

theorem serial_gates_bring_up:
  assumes "\<forall>k<fuel. \<not> serial_ready env k"
  shows "sketch lib env fuel tks = Serial_begin 115200 # replicate fuel (Delay 10)"
  using setup'_blocked [OF assms] by (simp add: sketch_eq)

theorem serial_gates_bring_up_witness:
  "\<not> serial_ready (example_env 0 0 0) 0 \<and> \<not> serial_ready (example_env 0 0 0) 1 \<and>
   sketch example_lib (example_env 0 0 0) 2 boot_ticks = [Serial_begin 115200, Delay 10, Delay 10]"
proof -
  have "replicate 2 (Delay 10) = [Delay 10, Delay 10]"
    by (simp add: numeral_2_eq_2)
  then show ?thesis
    using serial_gates_bring_up [of 2 "example_env 0 0 0" example_lib boot_ticks]
    by (simp add: example_env_def less_2_cases_iff)
qed




end
